theory Spec2Isabelle
  imports Complex_Main "HOL-Library.AList" "HOL-Library.Multiset"
begin

section \<open>Values, cells and tables\<close>

text \<open>
  The functions of \<^verbatim>\<open>whisp/src/tidy_tables.py\<close> work on pandas DataFrames whose cells are
  floats or strings. A value of type \<open>fl\<close> is a float as a comparison sees it: a real
  number, one of the two infinities or NaN. Comparisons of floats are exact, and false when
  NaN is involved. The float \<^verbatim>\<open>-0.0\<close> compares as 0 and differs from it under division only:
  it is a cell of its own, \<open>NegZero\<close>, and a threshold \<^verbatim>\<open>-0.0\<close> is the threshold 0.
\<close>

datatype fl = NaN | NInf | Fin real | PInf

datatype cell = Num fl | NegZero | Str string

datatype error = ValueError | KeyError | TypeError

fun fl_lt :: "fl \<Rightarrow> fl \<Rightarrow> bool" where
  "fl_lt NaN _ = False"
| "fl_lt _ NaN = False"
| "fl_lt (Fin x) (Fin y) = (x < y)"
| "fl_lt _ NInf = False"
| "fl_lt NInf _ = True"
| "fl_lt PInf _ = False"
| "fl_lt (Fin x) PInf = True"

fun fl_le :: "fl \<Rightarrow> fl \<Rightarrow> bool" where
  "fl_le NaN _ = False"
| "fl_le _ NaN = False"
| "fl_le (Fin x) (Fin y) = (x \<le> y)"
| "fl_le NInf _ = True"
| "fl_le _ PInf = True"
| "fl_le _ NInf = False"
| "fl_le PInf _ = False"

definition fl_gt :: "fl \<Rightarrow> fl \<Rightarrow> bool" where
  "fl_gt a b = fl_lt b a"

text \<open>
  The arithmetic on floats is that of the library, in 64-bit floating point: its results
  are rounded, and the sum of a row depends on the order and the types the library picks.
  None of it is part of the sources at hand. It is a parameter: the quotient of two cells
  that hold numbers, the product of two floats and the sum of the floats of a row (where
  the library skips NaN). Of a result only what a comparison sees is kept.
\<close>

record arithmetic =
  fl_div :: "cell \<Rightarrow> cell \<Rightarrow> fl"
  fl_mul :: "fl \<Rightarrow> fl \<Rightarrow> fl"
  fl_sum :: "fl list \<Rightarrow> fl"

text \<open>
  A DataFrame is its number of rows and its columns in order, each a label with one cell
  per row. Rows are identified by their position (a unique index) and column labels are
  unique; \<open>wf_table\<close> says so.
\<close>

record table =
  nrows :: nat
  cols :: "(string \<times> cell list) list"

definition wf_table :: "table \<Rightarrow> bool" where
  "wf_table df = (list_all (\<lambda>p. length (snd p) = nrows df) (cols df)
     \<and> distinct (map fst (cols df)))"

definition columns :: "table \<Rightarrow> string list" where
  "columns df = map fst (cols df)"

text \<open>\<^verbatim>\<open>df[col]\<close>: the column, or KeyError.\<close>

definition get_col :: "table \<Rightarrow> string \<Rightarrow> error + cell list" where
  "get_col df col = (case map_of (cols df) col of None \<Rightarrow> Inl KeyError | Some s \<Rightarrow> Inr s)"

text \<open>The cell of a column at a row, when both exist (used to state properties).\<close>

definition cell_at :: "table \<Rightarrow> string \<Rightarrow> nat \<Rightarrow> cell option" where
  "cell_at df col i =
     (case map_of (cols df) col of
        None \<Rightarrow> None
      | Some s \<Rightarrow> (if i < length s then Some (s ! i) else None))"

text \<open>
  \<^verbatim>\<open>df[name] = value\<close> with a scalar: an existing column is overwritten in place, a new one
  is appended.
\<close>

definition set_col :: "table \<Rightarrow> string \<Rightarrow> cell \<Rightarrow> table" where
  "set_col df name v = df\<lparr>cols := AList.update name (replicate (nrows df) v) (cols df)\<rparr>"

text \<open>
  \<^verbatim>\<open>df.loc[mask, name] = value\<close>: the rows where the mask holds get the value; a column
  that does not exist yet is created with NaN elsewhere.
\<close>

definition loc_set :: "table \<Rightarrow> bool list \<Rightarrow> string \<Rightarrow> cell \<Rightarrow> table" where
  "loc_set df msk name v =
     df\<lparr>cols := AList.update name
        (case map_of (cols df) name of
           Some s \<Rightarrow> map2 (\<lambda>m old. if m then v else old) msk s
         | None \<Rightarrow> map (\<lambda>m. if m then v else Num NaN) msk)
        (cols df)\<rparr>"

text \<open>\<^verbatim>\<open>df.at[index, name] = value\<close>: one cell; a new column is created with NaN elsewhere.\<close>

definition at_set :: "table \<Rightarrow> nat \<Rightarrow> string \<Rightarrow> cell \<Rightarrow> table" where
  "at_set df i name v =
     df\<lparr>cols := AList.update name
        (case map_of (cols df) name of
           Some s \<Rightarrow> s[i := v]
         | None \<Rightarrow> (replicate (nrows df) (Num NaN))[i := v])
        (cols df)\<rparr>"

text \<open>
  Arithmetic and ordering comparisons on a column raise TypeError when a cell is a
  string; \<open>floats\<close> reads a column as the numbers a comparison sees.
\<close>

fun float_of :: "cell \<Rightarrow> error + fl" where
  "float_of (Num x) = Inr x"
| "float_of NegZero = Inr (Fin 0)"
| "float_of (Str _) = Inl TypeError"

primrec floats :: "cell list \<Rightarrow> error + fl list" where
  "floats [] = Inr []"
| "floats (c # cs) =
     (case float_of c of
        Inl e \<Rightarrow> Inl e
      | Inr x \<Rightarrow> (case floats cs of Inl e \<Rightarrow> Inl e | Inr xs \<Rightarrow> Inr (x # xs)))"

text \<open>\<^verbatim>\<open>a / b\<close> on two columns of the same table, row by row.\<close>

definition series_div :: "arithmetic \<Rightarrow> cell list \<Rightarrow> cell list \<Rightarrow> error + fl list" where
  "series_div ar a b =
     (case floats a of
        Inl e \<Rightarrow> Inl e
      | Inr xs \<Rightarrow>
         (case floats b of Inl e \<Rightarrow> Inl e | Inr ys \<Rightarrow> Inr (map2 (fl_div ar) a b)))"

text \<open>
  A function that mutates the table it is given returns the table as it is after the call;
  when it raises, the error comes with the table as the call left it.
\<close>

type_synonym result = "(error \<times> table) + table"

section \<open>clamp and check\_range\<close>

text \<open>
  \<^verbatim>\<open>clamp(value, min_val, max_val)\<close> takes a float or a Series. On a Series it is
  \<^verbatim>\<open>value.clip(lower, upper)\<close>, which leaves NaN alone; on a float it is
  \<^verbatim>\<open>max(min_val, min(value, max_val))\<close>, where Python's \<^verbatim>\<open>min\<close> and \<^verbatim>\<open>max\<close> keep their first
  argument unless the second is strictly smaller (larger).
\<close>

datatype fval = Scalar fl | Series "fl list"

definition clip :: "fl \<Rightarrow> fl \<Rightarrow> fl \<Rightarrow> fl" where
  "clip lower upper x =
     (if x = NaN then NaN else if fl_lt x lower then lower
      else if fl_gt x upper then upper else x)"

definition py_min :: "fl \<Rightarrow> fl \<Rightarrow> fl" where
  "py_min a b = (if fl_lt b a then b else a)"

definition py_max :: "fl \<Rightarrow> fl \<Rightarrow> fl" where
  "py_max a b = (if fl_gt b a then b else a)"

fun clamp :: "fval \<Rightarrow> fl \<Rightarrow> fl \<Rightarrow> fval" where
  "clamp (Series s) min_val max_val = Series (map (clip min_val max_val) s)"
| "clamp (Scalar v) min_val max_val = Scalar (py_max min_val (py_min v max_val))"

definition check_range :: "fl \<Rightarrow> error + unit" where
  "check_range v =
     (if \<not> (fl_le (Fin 0) v \<and> fl_le v (Fin 100)) then Inl ValueError else Inr ())"

section \<open>The indicator columns\<close>

text \<open>
  \<^verbatim>\<open>percent_or_ha\<close> and \<^verbatim>\<open>geometry_area_column\<close> are imported from the runtime
  configuration, which is not part of the sources at hand: they are parameters here.
\<close>

record config =
  percent_or_ha :: string
  geometry_area_column :: string

text \<open>
  The value compared with the threshold for one column. In percent mode it is the column
  itself; a string cell then makes the comparison raise TypeError, which \<open>floats\<close>
  reports here (nothing happens in between). In ha mode the quotient and the product are
  those of the arithmetic given; \<^verbatim>\<open>clamp\<close> is given a Series and gives one back, the other
  case of its result cannot occur.
\<close>

definition val_to_check :: "arithmetic \<Rightarrow> config \<Rightarrow> table \<Rightarrow> string \<Rightarrow> error + fl list" where
  "val_to_check ar cfg df col =
     (if percent_or_ha cfg = ''ha'' then
        (case get_col df col of
           Inl e \<Rightarrow> Inl e
         | Inr c \<Rightarrow>
            (case get_col df (geometry_area_column cfg) of
               Inl e \<Rightarrow> Inl e
             | Inr a \<Rightarrow>
                (case series_div ar c a of
                   Inl e \<Rightarrow> Inl e
                 | Inr q \<Rightarrow>
                    (case clamp (Series (map (\<lambda>x. fl_mul ar x (Fin 100)) q)) (Fin 0) (Fin 100) of
                       Series s \<Rightarrow> Inr s
                     | Scalar _ \<Rightarrow> Inl TypeError))))
      else
        (case get_col df col of Inl e \<Rightarrow> Inl e | Inr c \<Rightarrow> floats c))"

text \<open>The loop \<^verbatim>\<open>for col in input_columns\<close> of \<^verbatim>\<open>add_indicator_column\<close>.\<close>

fun column_loop :: "arithmetic \<Rightarrow> config \<Rightarrow> fl \<Rightarrow> string \<Rightarrow> string \<Rightarrow> string list \<Rightarrow> table \<Rightarrow> result" where
  "column_loop ar cfg threshold new_column_name high_name [] df = Inr df"
| "column_loop ar cfg threshold new_column_name high_name (col # rest) df =
     (case val_to_check ar cfg df col of
        Inl e \<Rightarrow> Inl (e, df)
      | Inr v \<Rightarrow>
          column_loop ar cfg threshold new_column_name high_name rest
            (loc_set df (map (\<lambda>x. fl_gt x threshold) v) new_column_name (Str high_name)))"

text \<open>
  \<^verbatim>\<open>df[input_columns].sum(axis=1)\<close>: the selection raises KeyError for a missing column,
  the sum raises TypeError on a string.
\<close>

primrec select_cols :: "table \<Rightarrow> string list \<Rightarrow> error + fl list list" where
  "select_cols df [] = Inr []"
| "select_cols df (c # cs) =
     (case get_col df c of
        Inl e \<Rightarrow> Inl e
      | Inr s \<Rightarrow>
         (case select_cols df cs of
            Inl e \<Rightarrow> Inl e
          | Inr ss \<Rightarrow> (case floats s of Inl e \<Rightarrow> Inl e | Inr xs \<Rightarrow> Inr (xs # ss))))"

definition sum_axis1 :: "arithmetic \<Rightarrow> table \<Rightarrow> string list \<Rightarrow> error + fl list" where
  "sum_axis1 ar df input_columns =
     (case select_cols df input_columns of
        Inl e \<Rightarrow> Inl e
      | Inr ss \<Rightarrow> Inr (map (\<lambda>i. fl_sum ar (map (\<lambda>s. s ! i) ss)) [0..<nrows df]))"

definition add_indicator_column ::
  "arithmetic \<Rightarrow> config \<Rightarrow> table \<Rightarrow> string list \<Rightarrow> fl \<Rightarrow> string \<Rightarrow> string \<Rightarrow> string \<Rightarrow> bool \<Rightarrow> result" where
  "add_indicator_column ar cfg df input_columns threshold new_column_name low_name high_name
       sum_comparison =
     (let df1 = set_col df new_column_name (Str low_name) in
      if sum_comparison then
        (case sum_axis1 ar df1 input_columns of
           Inl e \<Rightarrow> Inl (e, df1)
         | Inr sum_values \<Rightarrow>
             Inr (loc_set df1 (map (\<lambda>x. fl_gt x threshold) sum_values) new_column_name
                    (Str high_name)))
      else column_loop ar cfg threshold new_column_name high_name input_columns df1)"

text \<open>The defaults of the optional parameters of \<^verbatim>\<open>add_indicator_column\<close>.\<close>

definition add_indicator_column_default_low_name :: string where
  "add_indicator_column_default_low_name = ''yes''"

definition add_indicator_column_default_high_name :: string where
  "add_indicator_column_default_high_name = ''no''"

definition add_indicator_column_default_sum_comparison :: bool where
  "add_indicator_column_default_sum_comparison = False"

text \<open>A call that gives none of the optional arguments.\<close>

definition add_indicator_column_defaults ::
  "arithmetic \<Rightarrow> config \<Rightarrow> table \<Rightarrow> string list \<Rightarrow> fl \<Rightarrow> string \<Rightarrow> result" where
  "add_indicator_column_defaults ar cfg df input_columns threshold new_column_name =
     add_indicator_column ar cfg df input_columns threshold new_column_name
       add_indicator_column_default_low_name add_indicator_column_default_high_name
       add_indicator_column_default_sum_comparison"

text \<open>
  \<^verbatim>\<open>add_indicators\<close> runs over \<^verbatim>\<open>zip(input_cols, thresholds, names)\<close>, which stops with
  the shortest of the three lists.
\<close>

fun indicators_loop ::
  "arithmetic \<Rightarrow> config \<Rightarrow> string \<Rightarrow> string \<Rightarrow> (string list \<times> fl \<times> string) list \<Rightarrow> table \<Rightarrow> result" where
  "indicators_loop ar cfg low_name high_name [] df = Inr df"
| "indicators_loop ar cfg low_name high_name ((input_col, threshold, name) # rest) df =
     (case add_indicator_column ar cfg df input_col threshold name low_name high_name False of
        Inl x \<Rightarrow> Inl x
      | Inr df' \<Rightarrow> indicators_loop ar cfg low_name high_name rest df')"

definition add_indicators ::
  "arithmetic \<Rightarrow> config \<Rightarrow> table \<Rightarrow> string list list \<Rightarrow> fl list \<Rightarrow> string list \<Rightarrow> string \<Rightarrow> string \<Rightarrow> result" where
  "add_indicators ar cfg df input_cols thresholds names low_name high_name =
     indicators_loop ar cfg low_name high_name (zip input_cols (zip thresholds names)) df"

section \<open>The risk column\<close>

text \<open>
  \<^verbatim>\<open>row[name]\<close> inside \<^verbatim>\<open>df.iterrows()\<close>: the rows are read from the table as it was when
  the loop started.
\<close>

definition row_get :: "table \<Rightarrow> nat \<Rightarrow> string \<Rightarrow> error + cell" where
  "row_get df i name =
     (case map_of (cols df) name of None \<Rightarrow> Inl KeyError | Some s \<Rightarrow> Inr (s ! i))"

text \<open>The decision of one row; \<^verbatim>\<open>or\<close> and \<^verbatim>\<open>elif\<close> read a cell only when they reach it.\<close>

definition risk_of_row ::
  "table \<Rightarrow> nat \<Rightarrow> string \<Rightarrow> string \<Rightarrow> string \<Rightarrow> string \<Rightarrow> error + string" where
  "risk_of_row df i ind_1_name ind_2_name ind_3_name ind_4_name =
     (case row_get df i ind_1_name of
        Inl e \<Rightarrow> Inl e
      | Inr c1 \<Rightarrow>
         if c1 = Str ''no'' then Inr ''low''
         else
          (case row_get df i ind_2_name of
             Inl e \<Rightarrow> Inl e
           | Inr c2 \<Rightarrow>
              if c2 = Str ''yes'' then Inr ''low''
              else
               (case row_get df i ind_3_name of
                  Inl e \<Rightarrow> Inl e
                | Inr c3 \<Rightarrow>
                   if c3 = Str ''yes'' then Inr ''low''
                   else
                    (case row_get df i ind_4_name of
                       Inl e \<Rightarrow> Inl e
                     | Inr c4 \<Rightarrow>
                        if c4 = Str ''no'' then Inr ''more_info_needed''
                        else Inr ''high''))))"

fun risk_loop ::
  "table \<Rightarrow> string \<Rightarrow> string \<Rightarrow> string \<Rightarrow> string \<Rightarrow> nat list \<Rightarrow> table \<Rightarrow> result" where
  "risk_loop snap ind_1_name ind_2_name ind_3_name ind_4_name [] df = Inr df"
| "risk_loop snap ind_1_name ind_2_name ind_3_name ind_4_name (index # rest) df =
     (case risk_of_row snap index ind_1_name ind_2_name ind_3_name ind_4_name of
        Inl e \<Rightarrow> Inl (e, df)
      | Inr label \<Rightarrow>
          risk_loop snap ind_1_name ind_2_name ind_3_name ind_4_name rest
            (at_set df index ''EUDR_risk'' (Str label)))"

definition add_eudr_risk_col ::
  "table \<Rightarrow> string \<Rightarrow> string \<Rightarrow> string \<Rightarrow> string \<Rightarrow> result" where
  "add_eudr_risk_col df ind_1_name ind_2_name ind_3_name ind_4_name =
     risk_loop df ind_1_name ind_2_name ind_3_name ind_4_name [0..<nrows df] df"

primrec check_ranges :: "fl list \<Rightarrow> error + unit" where
  "check_ranges [] = Inr ()"
| "check_ranges (t # ts) =
     (case check_range t of Inl e \<Rightarrow> Inl e | Inr _ \<Rightarrow> check_ranges ts)"

definition whisp_risk ::
  "arithmetic \<Rightarrow> config \<Rightarrow> table \<Rightarrow> fl \<Rightarrow> fl \<Rightarrow> fl \<Rightarrow> fl \<Rightarrow>
   string list \<Rightarrow> string list \<Rightarrow> string list \<Rightarrow> string list \<Rightarrow>
   string \<Rightarrow> string \<Rightarrow> string \<Rightarrow> string \<Rightarrow> string \<Rightarrow> string \<Rightarrow> result" where
  "whisp_risk ar cfg df ind_1_pcent_threshold ind_2_pcent_threshold ind_3_pcent_threshold
       ind_4_pcent_threshold ind_1_input_columns ind_2_input_columns ind_3_input_columns
       ind_4_input_columns ind_1_name ind_2_name ind_3_name ind_4_name low_name high_name =
     (let input_cols = [ind_1_input_columns, ind_2_input_columns, ind_3_input_columns,
                        ind_4_input_columns];
          thresholds = [ind_1_pcent_threshold, ind_2_pcent_threshold, ind_3_pcent_threshold,
                        ind_4_pcent_threshold];
          names = [ind_1_name, ind_2_name, ind_3_name]
      in case check_ranges thresholds of
           Inl e \<Rightarrow> Inl (e, df)
         | Inr _ \<Rightarrow>
            (case add_indicators ar cfg df input_cols thresholds names low_name high_name of
               Inl x \<Rightarrow> Inl x
             | Inr df_w_indicators \<Rightarrow>
                 add_eudr_risk_col df_w_indicators ind_1_name ind_2_name ind_3_name
                   ind_4_name))"

section \<open>Column order from the lookup table\<close>

text \<open>
  The lookup table has one row per dataset; of its columns the code reads
  \<^verbatim>\<open>dataset_name\<close> and \<^verbatim>\<open>dataset_order\<close>, a number.
\<close>

record lookup_row =
  dataset_name :: string
  dataset_order :: real

text \<open>
  \<^verbatim>\<open>sort_values(by=["dataset_order"])\<close> is called with the library's default sorting
  algorithm. The algorithm is not part of the sources at hand: it is a parameter
  \<open>argsort\<close>, which gives for a list of keys the positions of the rows in sorted order.
  \<open>is_argsort\<close> is what every sorting algorithm guarantees: the positions are a
  permutation and the keys are ascending along them.
\<close>

definition is_argsort :: "real list \<Rightarrow> nat list \<Rightarrow> bool" where
  "is_argsort keys p = (mset p = mset [0..<length keys] \<and> sorted (map ((!) keys) p))"

definition sort_values :: "(real list \<Rightarrow> nat list) \<Rightarrow> lookup_row list \<Rightarrow> lookup_row list" where
  "sort_values argsort lookup_gee_datasets_df =
     map ((!) lookup_gee_datasets_df) (argsort (map dataset_order lookup_gee_datasets_df))"

definition order_list_from_lookup :: "(real list \<Rightarrow> nat list) \<Rightarrow> lookup_row list \<Rightarrow> string list" where
  "order_list_from_lookup argsort lookup_gee_datasets_df =
     map dataset_name (sort_values argsort lookup_gee_datasets_df)"

definition create_column_list_from_lookup ::
  "(real list \<Rightarrow> nat list) \<Rightarrow> lookup_row list \<Rightarrow> string list \<Rightarrow> string list" where
  "create_column_list_from_lookup argsort lookup_gee_datasets_df prefix_columns_list =
     (let column_order_list = map dataset_name (sort_values argsort lookup_gee_datasets_df);
          column_order_list =
            prefix_columns_list @ order_list_from_lookup argsort lookup_gee_datasets_df
      in column_order_list)"

text \<open>
  \<^verbatim>\<open>df.reindex(columns=labels)\<close> on a table with unique column labels: the result has the
  given labels in the given order; a label the table has keeps its column, another one
  gets a column of NaN. The table given is not changed.
\<close>

definition reindex :: "table \<Rightarrow> string list \<Rightarrow> table" where
  "reindex df labels =
     \<lparr>nrows = nrows df,
      cols = map (\<lambda>c. (c, case map_of (cols df) c of
                           Some s \<Rightarrow> s
                         | None \<Rightarrow> replicate (nrows df) (Num NaN))) labels\<rparr>"

definition reorder_columns_by_lookup ::
  "(real list \<Rightarrow> nat list) \<Rightarrow> table \<Rightarrow> lookup_row list \<Rightarrow> string \<Rightarrow> string \<Rightarrow> string list
     \<Rightarrow> table" where
  "reorder_columns_by_lookup argsort df lookup_gee_datasets_df dataset_order_column
       dataset_name_column prefix_columns_list =
     (let column_order_list =
            create_column_list_from_lookup argsort lookup_gee_datasets_df prefix_columns_list;
          df_reordered = reindex df column_order_list
      in df_reordered)"

section \<open>Properties in terms of rows\<close>

text \<open>
  Row \<open>i\<close> of column \<open>col\<close> exceeds the threshold: the value that
  \<^verbatim>\<open>add_indicator_column\<close> computes for the column is strictly greater at that row.
\<close>

definition exceeds :: "arithmetic \<Rightarrow> config \<Rightarrow> table \<Rightarrow> string \<Rightarrow> nat \<Rightarrow> fl \<Rightarrow> bool" where
  "exceeds ar cfg df col i threshold =
     (case val_to_check ar cfg df col of Inl _ \<Rightarrow> False | Inr v \<Rightarrow> fl_gt (v ! i) threshold)"

text \<open>The decision rule of the risk column on the four cells of a row.\<close>

definition risk_rule :: "cell \<Rightarrow> cell \<Rightarrow> cell \<Rightarrow> cell \<Rightarrow> string" where
  "risk_rule c1 c2 c3 c4 =
     (if c1 = Str ''no'' \<or> c2 = Str ''yes'' \<or> c3 = Str ''yes'' then ''low''
      else if c4 = Str ''no'' then ''more_info_needed''
      else ''high'')"

section \<open>Example inputs\<close>

text \<open>
  On the numbers of the examples below the arithmetic of the library is exact: there it is
  the arithmetic of the reals, extended to the infinities, NaN and \<^verbatim>\<open>-0.0\<close>.
\<close>

fun real_div :: "fl \<Rightarrow> fl \<Rightarrow> fl" where
  "real_div NaN _ = NaN"
| "real_div _ NaN = NaN"
| "real_div (Fin x) (Fin y) =
     (if y = 0 then (if 0 < x then PInf else if x < 0 then NInf else NaN) else Fin (x / y))"
| "real_div (Fin x) _ = Fin 0"
| "real_div PInf (Fin y) = (if y < 0 then NInf else PInf)"
| "real_div NInf (Fin y) = (if y < 0 then PInf else NInf)"
| "real_div _ _ = NaN"

fun real_mul :: "fl \<Rightarrow> fl \<Rightarrow> fl" where
  "real_mul NaN _ = NaN"
| "real_mul _ NaN = NaN"
| "real_mul (Fin x) (Fin y) = Fin (x * y)"
| "real_mul (Fin x) PInf = (if 0 < x then PInf else if x < 0 then NInf else NaN)"
| "real_mul (Fin x) NInf = (if 0 < x then NInf else if x < 0 then PInf else NaN)"
| "real_mul PInf (Fin y) = (if 0 < y then PInf else if y < 0 then NInf else NaN)"
| "real_mul NInf (Fin y) = (if 0 < y then NInf else if y < 0 then PInf else NaN)"
| "real_mul PInf PInf = PInf"
| "real_mul NInf NInf = PInf"
| "real_mul _ _ = NInf"

fun real_add :: "fl \<Rightarrow> fl \<Rightarrow> fl" where
  "real_add NaN _ = NaN"
| "real_add _ NaN = NaN"
| "real_add (Fin x) (Fin y) = Fin (x + y)"
| "real_add (Fin x) b = b"
| "real_add a (Fin y) = a"
| "real_add PInf PInf = PInf"
| "real_add NInf NInf = NInf"
| "real_add _ _ = NaN"

fun fl_neg :: "fl \<Rightarrow> fl" where
  "fl_neg NaN = NaN"
| "fl_neg NInf = PInf"
| "fl_neg PInf = NInf"
| "fl_neg (Fin x) = Fin (- x)"

fun seen :: "cell \<Rightarrow> fl" where
  "seen (Num x) = x"
| "seen NegZero = Fin 0"
| "seen (Str _) = NaN"

definition exact_div :: "cell \<Rightarrow> cell \<Rightarrow> fl" where
  "exact_div x a =
     (if a = NegZero then fl_neg (real_div (seen x) (Fin 0)) else real_div (seen x) (seen a))"

definition exact_sum :: "fl list \<Rightarrow> fl" where
  "exact_sum xs = foldl real_add (Fin 0) (filter (\<lambda>x. x \<noteq> NaN) xs)"

definition exact :: arithmetic where
  "exact = \<lparr>fl_div = exact_div, fl_mul = real_mul, fl_sum = exact_sum\<rparr>"

text \<open>
  Where the library rounds: in 64-bit floating point 7 / 25 is 1261007895663739 / 2^52, a
  little more than 0.28, and 100 times that is 7881299347898369 / 2^48, which is 28 + 2^-48.
  The arithmetic below has these two results and is the exact one elsewhere.
\<close>

definition rounded :: arithmetic where
  "rounded =
     \<lparr>fl_div = (\<lambda>x a. if x = Num (Fin 7) \<and> a = Num (Fin 25)
                      then Fin (1261007895663739 / 4503599627370496) else exact_div x a),
      fl_mul = (\<lambda>x y. if x = Fin (1261007895663739 / 4503599627370496) \<and> y = Fin 100
                      then Fin (7881299347898369 / 281474976710656) else real_mul x y),
      fl_sum = exact_sum\<rparr>"

text \<open>One parcel of 25 ha with 7 ha of a crop, and parcels whose area is 0 and \<^verbatim>\<open>-0.0\<close>.\<close>

definition parcel :: "cell \<Rightarrow> cell \<Rightarrow> table" where
  "parcel area crop = \<lparr>nrows = 1, cols = [(''Area'', [area]), (''crop'', [crop])]\<rparr>"

definition parcel_labelled :: "cell \<Rightarrow> cell \<Rightarrow> string \<Rightarrow> table" where
  "parcel_labelled area crop label =
     \<lparr>nrows = 1, cols = [(''Area'', [area]), (''crop'', [crop]), (''Indicator'', [Str label])]\<rparr>"

definition percent_config :: config where
  "percent_config = \<lparr>percent_or_ha = ''percent'', geometry_area_column = ''Area''\<rparr>"

definition ha_config :: config where
  "ha_config = \<lparr>percent_or_ha = ''ha'', geometry_area_column = ''Area''\<rparr>"

definition plots :: table where
  "plots =
     \<lparr>nrows = 2,
      cols = [(''Area'', [Num (Fin 10), Num (Fin 4)]),
              (''treecover'', [Num (Fin 50), Num (Fin 1)]),
              (''cocoa'', [Num (Fin 0), Num (Fin 0)]),
              (''oil_palm'', [Num (Fin 0), Num (Fin 3)]),
              (''loss_before'', [Num (Fin 0), Num (Fin 0)]),
              (''loss_after'', [Num (Fin 20), Num (Fin 0)])]\<rparr>"


definition lookup_example :: "lookup_row list" where
  "lookup_example =
     [\<lparr>dataset_name = ''treecover'', dataset_order = 20\<rparr>,
      \<lparr>dataset_name = ''cocoa'', dataset_order = 10\<rparr>,
      \<lparr>dataset_name = ''soy'', dataset_order = 30\<rparr>]"

definition tied_lookup :: "lookup_row list" where
  "tied_lookup =
     [\<lparr>dataset_name = ''cocoa'', dataset_order = 1\<rparr>,
      \<lparr>dataset_name = ''soy'', dataset_order = 1\<rparr>]"

text \<open>An insertion sort of the positions by key, to have one sorting algorithm at hand.\<close>

definition insertion_argsort :: "real list \<Rightarrow> nat list" where
  "insertion_argsort keys = map snd (sort_key fst (zip keys [0..<length keys]))"

text \<open>The example table with an indicator column appended.\<close>

definition plots_labelled :: "cell list \<Rightarrow> table" where
  "plots_labelled labels = plots\<lparr>cols := cols plots @ [(''Indicator_2_commodities'', labels)]\<rparr>"

text \<open>Indicator columns written with the labels the other way round: low ``yes'', high ``no''.\<close>

definition swapped_plots :: table where
  "swapped_plots =
     \<lparr>nrows = 2,
      cols = [(''Indicator_1_treecover'', [Str ''no'', Str ''yes'']),
              (''Indicator_2_commodities'', [Str ''no'', Str ''no'']),
              (''Indicator_3_disturbance_before_2020'', [Str ''no'', Str ''no'']),
              (''Indicator_4_disturbance_after_2020'', [Str ''yes'', Str ''no''])]\<rparr>"

text \<open>Indicator columns written with the labels ``below'' and ``above''.\<close>

definition renamed_plots :: table where
  "renamed_plots =
     \<lparr>nrows = 2,
      cols = [(''Indicator_1_treecover'', [Str ''below'', Str ''above'']),
              (''Indicator_2_commodities'', [Str ''above'', Str ''below'']),
              (''Indicator_3_disturbance_before_2020'', [Str ''below'', Str ''below'']),
              (''Indicator_4_disturbance_after_2020'', [Str ''below'', Str ''above''])]\<rparr>"

text \<open>The same sort with the rows taken from the last to the first.\<close>

definition backward_argsort :: "real list \<Rightarrow> nat list" where
  "backward_argsort keys = map snd (sort_key fst (rev (zip keys [0..<length keys])))"

section \<open>Threshold validation\<close>

lemma check_range_iff:
  "check_range t = Inr () \<longleftrightarrow> (\<exists>x. t = Fin x \<and> 0 \<le> x \<and> x \<le> 100)"
  by (cases t) (auto simp: check_range_def)

lemma check_range_cases: "check_range t = Inr () \<or> check_range t = Inl ValueError"
  by (simp add: check_range_def)

lemma check_ranges_ok:
  "check_ranges ts = Inr () \<longleftrightarrow> (\<forall>t\<in>set ts. check_range t = Inr ())"
  using check_range_cases by (induction ts) (auto split: sum.splits)

lemma check_ranges_cases: "check_ranges ts = Inr () \<or> check_ranges ts = Inl ValueError"
proof (induction ts)
  case Nil
  show ?case by simp
next
  case (Cons t ts)
  then show ?case using check_range_cases [of t] by (auto split: sum.splits)
qed

text \<open>
  Claim C3. When one of the four thresholds is not a number of the closed interval
  [0, 100], \<^verbatim>\<open>whisp_risk\<close> raises ValueError and the table is as it was given: no column
  has been written. The thresholds 0 and 100 pass \<^verbatim>\<open>check_range\<close>.
\<close>

theorem whisp_risk_threshold_out_of_range:
  assumes "t \<in> {t1, t2, t3, t4}"
    and "\<And>x. t = Fin x \<Longrightarrow> x < 0 \<or> 100 < x"
  shows "whisp_risk ar cfg df t1 t2 t3 t4 ic1 ic2 ic3 ic4 n1 n2 n3 n4 low_name high_name
           = Inl (ValueError, df)
         \<and> check_range (Fin 0) = Inr () \<and> check_range (Fin 100) = Inr ()"
proof -
  have "check_range t \<noteq> Inr ()"
    using assms(2) by (fastforce simp: check_range_iff)
  with assms(1) have "check_ranges [t1, t2, t3, t4] \<noteq> Inr ()"
    unfolding check_ranges_ok by auto
  then have "check_ranges [t1, t2, t3, t4] = Inl ValueError"
    using check_ranges_cases by blast
  then have "whisp_risk ar cfg df t1 t2 t3 t4 ic1 ic2 ic3 ic4 n1 n2 n3 n4 low_name high_name
           = Inl (ValueError, df)"
    by (simp add: whisp_risk_def)
  moreover have "check_range (Fin 0) = Inr ()" "check_range (Fin 100) = Inr ()"
    by (simp_all add: check_range_def)
  ultimately show ?thesis by simp
qed

text \<open>The thresholds 150 and -5 on the example table.\<close>

theorem whisp_risk_threshold_out_of_range_witness:
  "whisp_risk exact percent_config plots (Fin 10) (Fin 150) (Fin 10) (Fin 10)
      [''treecover''] [''cocoa'', ''oil_palm''] [''loss_before''] [''loss_after'']
      ''Indicator_1_treecover'' ''Indicator_2_commodities''
      ''Indicator_3_disturbance_before_2020'' ''Indicator_4_disturbance_after_2020''
      ''no'' ''yes'' = Inl (ValueError, plots)
   \<and> whisp_risk exact percent_config plots (Fin 10) (Fin 10) (Fin 10) (Fin (- 5))
      [''treecover''] [''cocoa'', ''oil_palm''] [''loss_before''] [''loss_after'']
      ''Indicator_1_treecover'' ''Indicator_2_commodities''
      ''Indicator_3_disturbance_before_2020'' ''Indicator_4_disturbance_after_2020''
      ''no'' ''yes'' = Inl (ValueError, plots)"
  using whisp_risk_threshold_out_of_range [of "Fin 150" "Fin 10" "Fin 150" "Fin 10" "Fin 10"]
    whisp_risk_threshold_out_of_range [of "Fin (- 5)" "Fin 10" "Fin 10" "Fin 10" "Fin (- 5)"]
  by simp

section \<open>Reading and writing columns\<close>

lemma floats_length: "floats s = Inr v \<Longrightarrow> length v = length s"
  by (induction s arbitrary: v) (auto split: sum.splits)


lemma floats_no_Str: "floats s = Inr v \<Longrightarrow> Str l \<notin> set s"
  by (induction s arbitrary: v) (auto split: sum.splits)

lemma map_of_set_col:
  "map_of (cols (set_col df name v)) = (map_of (cols df))(name \<mapsto> replicate (nrows df) v)"
  by (simp add: set_col_def update_conv')

lemma nrows_set_col: "nrows (set_col df name v) = nrows df"
  by (simp add: set_col_def)

lemma map_of_loc_set_same:
  "map_of (cols df) name = Some s \<Longrightarrow>
   map_of (cols (loc_set df msk name v)) =
     (map_of (cols df))(name \<mapsto> map2 (\<lambda>m old. if m then v else old) msk s)"
  by (simp add: loc_set_def update_conv')

lemma nrows_loc_set: "nrows (loc_set df msk name v) = nrows df"
  by (simp add: loc_set_def)

lemma wf_table_lengths:
  "wf_table df \<Longrightarrow> map_of (cols df) c = Some s \<Longrightarrow> length s = nrows df"
  by (auto simp: wf_table_def list_all_iff dest: map_of_SomeD)

section \<open>The labels written by add\_indicator\_column\<close>

lemma val_to_check_cong:
  "map_of (cols a) col = map_of (cols b) col \<Longrightarrow>
   map_of (cols a) (geometry_area_column cfg) = map_of (cols b) (geometry_area_column cfg) \<Longrightarrow>
   val_to_check ar cfg a col = val_to_check ar cfg b col"
  by (simp add: val_to_check_def get_col_def cong: sum.case_cong)

lemma val_to_check_length:
  assumes "val_to_check ar cfg df col = Inr v"
    and "\<And>c s. map_of (cols df) c = Some s \<Longrightarrow> length s = n"
  shows "length v = n"
  using assms
  by (auto simp: val_to_check_def get_col_def series_div_def
      split: if_splits option.splits sum.splits dest!: floats_length)

lemma val_to_check_reads_numbers:
  assumes "val_to_check ar cfg df col = Inr v"
    and "map_of (cols df) c = Some s" and "Str l \<in> set s"
  shows "c \<noteq> col \<and> (percent_or_ha cfg = ''ha'' \<longrightarrow> c \<noteq> geometry_area_column cfg)"
  using assms
  by (auto simp: val_to_check_def get_col_def series_div_def
      split: if_splits option.splits sum.splits dest: floats_no_Str)

lemma column_loop_labels:
  assumes "column_loop ar cfg t new high cs cur = Inr df'"
    and "0 < nrows cur"
    and "\<And>c. c \<noteq> new \<Longrightarrow> map_of (cols cur) c = map_of (cols df0) c"
    and "map_of (cols cur) new = Some s" and "length s = nrows cur"
    and "\<And>x. x \<in> set s \<Longrightarrow> \<exists>l. x = Str l"
    and "\<And>c u. map_of (cols df0) c = Some u \<Longrightarrow> length u = nrows cur"
  shows "nrows df' = nrows cur
     \<and> (\<forall>c. c \<noteq> new \<longrightarrow> map_of (cols df') c = map_of (cols df0) c)
     \<and> map_of (cols df') new =
         Some (map (\<lambda>i. if \<exists>c\<in>set cs. exceeds ar cfg df0 c i t then Str high else s ! i)
                 [0..<nrows cur])
     \<and> (\<forall>c\<in>set cs. \<exists>v. val_to_check ar cfg df0 c = Inr v)"
  using assms
proof (induction cs arbitrary: cur s)
  case Nil
  then show ?case by (simp add: list_eq_iff_nth_eq)
next
  case (Cons col rest)
  from Cons.prems(1) obtain v where v: "val_to_check ar cfg cur col = Inr v"
    by (auto split: sum.splits)
  define cur' where "cur' = loc_set cur (map (\<lambda>x. fl_gt x t) v) new (Str high)"
  define s' where "s' = map2 (\<lambda>m old. if m then Str high else old) (map (\<lambda>x. fl_gt x t) v) s"
  from Cons.prems(1) v have loop: "column_loop ar cfg t new high rest cur' = Inr df'"
    by (simp add: cur'_def)
  from Cons.prems(2,4,5) obtain l where "Str l \<in> set s"
    using Cons.prems(6) by (cases s) auto
  with v Cons.prems(4) have neq: "new \<noteq> col"
    "percent_or_ha cfg = ''ha'' \<longrightarrow> new \<noteq> geometry_area_column cfg"
    using val_to_check_reads_numbers by blast+
  have v0: "val_to_check ar cfg df0 col = Inr v"
  proof (cases "percent_or_ha cfg = ''ha''")
    case True
    with neq Cons.prems(3) have "val_to_check ar cfg cur col = val_to_check ar cfg df0 col"
      by (intro val_to_check_cong) auto
    with v show ?thesis by simp
  next
    case False
    with neq Cons.prems(3) [of col] have "val_to_check ar cfg cur col = val_to_check ar cfg df0 col"
      by (simp add: val_to_check_def get_col_def)
    with v show ?thesis by simp
  qed
  have lv: "length v = nrows cur"
    using val_to_check_length [OF v0] Cons.prems(7) by blast
  have m': "map_of (cols cur') = (map_of (cols cur))(new \<mapsto> s')"
    unfolding cur'_def s'_def by (rule map_of_loc_set_same [OF Cons.prems(4)])
  have n': "nrows cur' = nrows cur"
    by (simp add: cur'_def nrows_loc_set)
  have ls': "length s' = nrows cur"
    using lv Cons.prems(5) by (simp add: s'_def)
  have str': "\<And>x. x \<in> set s' \<Longrightarrow> \<exists>l. x = Str l"
    using Cons.prems(6) by (auto simp: s'_def set_zip)
  have IH: "nrows df' = nrows cur'
     \<and> (\<forall>c. c \<noteq> new \<longrightarrow> map_of (cols df') c = map_of (cols df0) c)
     \<and> map_of (cols df') new =
         Some (map (\<lambda>i. if \<exists>c\<in>set rest. exceeds ar cfg df0 c i t then Str high else s' ! i)
                 [0..<nrows cur'])
     \<and> (\<forall>c\<in>set rest. \<exists>v. val_to_check ar cfg df0 c = Inr v)"
  proof (rule Cons.IH [OF loop])
    show "0 < nrows cur'" using n' Cons.prems(2) by simp
    show "\<And>c. c \<noteq> new \<Longrightarrow> map_of (cols cur') c = map_of (cols df0) c"
      using m' Cons.prems(3) by simp
    show "map_of (cols cur') new = Some s'" using m' by simp
    show "length s' = nrows cur'" using ls' n' by simp
    show "\<And>x. x \<in> set s' \<Longrightarrow> \<exists>l. x = Str l" by (rule str')
    show "\<And>c u. map_of (cols df0) c = Some u \<Longrightarrow> length u = nrows cur'"
      using Cons.prems(7) n' by simp
  qed
  have "s' ! i = (if exceeds ar cfg df0 col i t then Str high else s ! i)"
    if "i < nrows cur" for i
    using that lv Cons.prems(5) v0 by (simp add: s'_def exceeds_def)
  then have "map (\<lambda>i. if \<exists>c\<in>set rest. exceeds ar cfg df0 c i t then Str high else s' ! i)
                 [0..<nrows cur']
     = map (\<lambda>i. if \<exists>c\<in>set (col # rest). exceeds ar cfg df0 c i t then Str high else s ! i)
                 [0..<nrows cur]"
    using n' by auto
  with IH n' v0 show ?case by simp
qed

lemma add_indicator_column_labels:
  assumes "wf_table df"
    and "add_indicator_column ar cfg df cs t new low high False = Inr df'"
    and "i < nrows df"
  shows "cell_at df' new i =
           Some (Str (if \<exists>c\<in>set cs. exceeds ar cfg df c i t then high else low))
         \<and> (\<forall>c\<in>set cs. \<exists>v. val_to_check ar cfg df c = Inr v)
         \<and> nrows df' = nrows df
         \<and> (\<forall>c. c \<noteq> new \<longrightarrow> map_of (cols df') c = map_of (cols df) c)"
proof -
  define df1 where "df1 = set_col df new (Str low)"
  from assms(2) have loop: "column_loop ar cfg t new high cs df1 = Inr df'"
    by (simp add: add_indicator_column_def df1_def)
  have n1: "nrows df1 = nrows df"
    by (simp add: df1_def nrows_set_col)
  have m1: "map_of (cols df1) = (map_of (cols df))(new \<mapsto> replicate (nrows df) (Str low))"
    by (simp add: df1_def map_of_set_col)
  have "nrows df' = nrows df1
     \<and> (\<forall>c. c \<noteq> new \<longrightarrow> map_of (cols df') c = map_of (cols df) c)
     \<and> map_of (cols df') new =
         Some (map (\<lambda>i. if \<exists>c\<in>set cs. exceeds ar cfg df c i t then Str high
                        else replicate (nrows df) (Str low) ! i) [0..<nrows df1])
     \<and> (\<forall>c\<in>set cs. \<exists>v. val_to_check ar cfg df c = Inr v)"
  proof (rule column_loop_labels [OF loop])
    show "0 < nrows df1" using assms(3) n1 by simp
    show "\<And>c. c \<noteq> new \<Longrightarrow> map_of (cols df1) c = map_of (cols df) c"
      using m1 by simp
    show "map_of (cols df1) new = Some (replicate (nrows df) (Str low))"
      using m1 by simp
    show "length (replicate (nrows df) (Str low)) = nrows df1"
      using n1 by simp
    show "\<And>x. x \<in> set (replicate (nrows df) (Str low)) \<Longrightarrow> \<exists>l. x = Str l"
      by auto
    show "\<And>c u. map_of (cols df) c = Some u \<Longrightarrow> length u = nrows df1"
      using wf_table_lengths [OF assms(1)] n1 by simp
  qed
  with assms(3) n1 show ?thesis
    by (simp add: cell_at_def)
qed

lemma set_map2_labels:
  assumes "set s \<subseteq> {a, b}"
  shows "set (map2 (\<lambda>m old. if m then b else old) msk s) \<subseteq> {a, b}"
proof
  fix x
  assume "x \<in> set (map2 (\<lambda>m old. if m then b else old) msk s)"
  then obtain m old where mo: "(m, old) \<in> set (zip msk s)" and x: "x = (if m then b else old)"
    by auto
  from mo have "old \<in> set s" by (rule set_zip_rightD)
  with assms x show "x \<in> {a, b}" by auto
qed

lemma column_loop_two_labels:
  assumes "column_loop ar cfg t new high cs cur = Inr df'"
    and "map_of (cols cur) new = Some s" and "length s = nrows cur"
    and "set s \<subseteq> {Str low, Str high}"
    and "\<And>c u. map_of (cols cur) c = Some u \<Longrightarrow> length u = nrows cur"
  shows "\<exists>s'. map_of (cols df') new = Some s' \<and> length s' = nrows cur
           \<and> set s' \<subseteq> {Str low, Str high} \<and> nrows df' = nrows cur"
  using assms
proof (induction cs arbitrary: cur s)
  case Nil
  then show ?case by simp
next
  case (Cons col rest)
  from Cons.prems(1) obtain v where v: "val_to_check ar cfg cur col = Inr v"
    by (auto split: sum.splits)
  define cur' where "cur' = loc_set cur (map (\<lambda>x. fl_gt x t) v) new (Str high)"
  define s' where "s' = map2 (\<lambda>m old. if m then Str high else old) (map (\<lambda>x. fl_gt x t) v) s"
  from Cons.prems(1) v have loop: "column_loop ar cfg t new high rest cur' = Inr df'"
    by (simp add: cur'_def)
  have lv: "length v = nrows cur"
    using val_to_check_length [OF v] Cons.prems(5) by blast
  have m': "map_of (cols cur') = (map_of (cols cur))(new \<mapsto> s')"
    unfolding cur'_def s'_def by (rule map_of_loc_set_same [OF Cons.prems(2)])
  have n': "nrows cur' = nrows cur"
    by (simp add: cur'_def nrows_loc_set)
  have ls': "length s' = nrows cur"
    using lv Cons.prems(3) by (simp add: s'_def)
  have set': "set s' \<subseteq> {Str low, Str high}"
    unfolding s'_def by (rule set_map2_labels [OF Cons.prems(4)])
  have "\<exists>s''. map_of (cols df') new = Some s'' \<and> length s'' = nrows cur'
           \<and> set s'' \<subseteq> {Str low, Str high} \<and> nrows df' = nrows cur'"
  proof (rule Cons.IH [OF loop])
    show "map_of (cols cur') new = Some s'" using m' by simp
    show "length s' = nrows cur'" using ls' n' by simp
    show "set s' \<subseteq> {Str low, Str high}" by (rule set')
    show "\<And>c u. map_of (cols cur') c = Some u \<Longrightarrow> length u = nrows cur'"
      using m' ls' n' Cons.prems(5) by (auto split: if_splits)
  qed
  with n' show ?case by simp
qed

text \<open>
  Claim C4. When \<^verbatim>\<open>add_indicator_column\<close> returns, the column \<^verbatim>\<open>new_column_name\<close> of
  its result has one cell for every row of the table and every cell is \<^verbatim>\<open>low_name\<close> or
  \<^verbatim>\<open>high_name\<close>. This holds for every table and threshold, with and without
  \<^verbatim>\<open>sum_comparison\<close>, in both unit modes.
\<close>

theorem add_indicator_column_two_labels:
  assumes "wf_table df"
    and "add_indicator_column ar cfg df cs t new low high sc = Inr df'"
  shows "\<exists>s. get_col df' new = Inr s \<and> length s = nrows df' \<and> nrows df' = nrows df
           \<and> set s \<subseteq> {Str low, Str high}"
proof -
  define df1 where "df1 = set_col df new (Str low)"
  have n1: "nrows df1 = nrows df"
    by (simp add: df1_def nrows_set_col)
  have m1: "map_of (cols df1) = (map_of (cols df))(new \<mapsto> replicate (nrows df) (Str low))"
    by (simp add: df1_def map_of_set_col)
  show ?thesis
  proof (cases sc)
    case True
    with assms(2) obtain sv where sv: "sum_axis1 ar df1 cs = Inr sv"
      and res: "df' = loc_set df1 (map (\<lambda>x. fl_gt x t) sv) new (Str high)"
      by (auto simp: add_indicator_column_def df1_def Let_def split: sum.splits)
    from sv have "length sv = nrows df"
      by (auto simp: sum_axis1_def n1 split: sum.splits)
    moreover have "set (map2 (\<lambda>m old. if m then Str high else old) (map (\<lambda>x. fl_gt x t) sv)
          (replicate (nrows df) (Str low))) \<subseteq> {Str low, Str high}"
      by (rule set_map2_labels) auto
    ultimately show ?thesis
      using m1 n1
      by (simp add: res get_col_def nrows_loc_set map_of_loc_set_same)
  next
    case False
    with assms(2) have loop: "column_loop ar cfg t new high cs df1 = Inr df'"
      by (simp add: add_indicator_column_def df1_def)
    have "\<exists>s'. map_of (cols df') new = Some s' \<and> length s' = nrows df1
           \<and> set s' \<subseteq> {Str low, Str high} \<and> nrows df' = nrows df1"
    proof (rule column_loop_two_labels [OF loop])
      show "map_of (cols df1) new = Some (replicate (nrows df) (Str low))"
        using m1 by simp
      show "length (replicate (nrows df) (Str low)) = nrows df1"
        using n1 by simp
      show "set (replicate (nrows df) (Str low)) \<subseteq> {Str low, Str high}"
        by auto
      show "\<And>c u. map_of (cols df1) c = Some u \<Longrightarrow> length u = nrows df1"
        using m1 n1 wf_table_lengths [OF assms(1)] by (auto split: if_splits)
    qed
    with n1 show ?thesis by (auto simp: get_col_def)
  qed
qed

text \<open>The commodity columns of the example table against the threshold 2.\<close>

theorem add_indicator_column_two_labels_witness:
  "wf_table plots
   \<and> add_indicator_column exact percent_config plots [''cocoa'', ''oil_palm''] (Fin 2)
        ''Indicator_2_commodities'' ''no'' ''yes'' False
       = Inr (plots_labelled [Str ''no'', Str ''yes''])
   \<and> (\<exists>s. get_col (plots_labelled [Str ''no'', Str ''yes'']) ''Indicator_2_commodities'' = Inr s
          \<and> length s = nrows (plots_labelled [Str ''no'', Str ''yes''])
          \<and> nrows (plots_labelled [Str ''no'', Str ''yes'']) = nrows plots
          \<and> set s \<subseteq> {Str ''no'', Str ''yes''})"
proof -
  have w: "wf_table plots" by code_simp
  have r: "add_indicator_column exact percent_config plots [''cocoa'', ''oil_palm''] (Fin 2)
        ''Indicator_2_commodities'' ''no'' ''yes'' False
       = Inr (plots_labelled [Str ''no'', Str ''yes''])"
    by code_simp
  from add_indicator_column_two_labels [OF w r] w r show ?thesis by blast
qed











text \<open>
  The rounding of the library decides the label where the exact value sits on the
  threshold: 7 ha on 25 ha against the threshold 28 is ``yes'' in 64-bit floating point and
  would be ``no'' in exact arithmetic. An area of \<^verbatim>\<open>-0.0\<close> gives the quotient minus infinity,
  clipped to 0, where an area of 0 gives infinity, clipped to 100.
\<close>

lemma rounding_decides_the_label:
  "add_indicator_column rounded ha_config (parcel (Num (Fin 25)) (Num (Fin 7))) [''crop'']
       (Fin 28) ''Indicator'' ''no'' ''yes'' False
     = Inr (parcel_labelled (Num (Fin 25)) (Num (Fin 7)) ''yes'')
   \<and> add_indicator_column exact ha_config (parcel (Num (Fin 25)) (Num (Fin 7))) [''crop'']
       (Fin 28) ''Indicator'' ''no'' ''yes'' False
     = Inr (parcel_labelled (Num (Fin 25)) (Num (Fin 7)) ''no'')"
  by code_simp

lemma negative_zero_area:
  "add_indicator_column exact ha_config (parcel NegZero (Num (Fin 3))) [''crop'']
       (Fin 50) ''Indicator'' ''no'' ''yes'' False
     = Inr (parcel_labelled NegZero (Num (Fin 3)) ''no'')
   \<and> add_indicator_column exact ha_config (parcel (Num (Fin 0)) (Num (Fin 3))) [''crop'']
       (Fin 50) ''Indicator'' ''no'' ''yes'' False
     = Inr (parcel_labelled (Num (Fin 0)) (Num (Fin 3)) ''yes'')"
  by code_simp

text \<open>
  Claim C10. The defaults of \<^verbatim>\<open>add_indicator_column\<close> are \<^verbatim>\<open>low_name="yes"\<close> and
  \<^verbatim>\<open>high_name="no"\<close>: a call without the two arguments sets every row to ``yes'' first and
  leaves ``no'' in the rows where an input column exceeds the threshold.
\<close>

theorem add_indicator_column_default_labels:
  assumes "wf_table df"
    and "add_indicator_column_defaults ar cfg df input_columns threshold new_column_name = Inr df'"
    and "i < nrows df"
  shows "add_indicator_column_default_low_name = ''yes''
     \<and> add_indicator_column_default_high_name = ''no''
     \<and> cell_at (set_col df new_column_name (Str add_indicator_column_default_low_name))
          new_column_name i = Some (Str ''yes'')
     \<and> cell_at df' new_column_name i =
          Some (Str (if \<exists>c\<in>set input_columns. exceeds ar cfg df c i threshold
                     then ''no'' else ''yes''))"
proof -
  from assms(2) have run: "add_indicator_column ar cfg df input_columns threshold new_column_name
      ''yes'' ''no'' False = Inr df'"
    by (simp add: add_indicator_column_defaults_def add_indicator_column_default_low_name_def
        add_indicator_column_default_high_name_def
        add_indicator_column_default_sum_comparison_def)
  from add_indicator_column_labels [OF assms(1) run assms(3)] assms(3) show ?thesis
    by (simp add: add_indicator_column_default_low_name_def
        add_indicator_column_default_high_name_def cell_at_def map_of_set_col)
qed

text \<open>Row 1 of the example table, with oil palm above the threshold 2, gets ``no''.\<close>

theorem add_indicator_column_default_labels_witness:
  "wf_table plots
   \<and> add_indicator_column_defaults exact percent_config plots [''cocoa'', ''oil_palm''] (Fin 2)
        ''Indicator_2_commodities'' = Inr (plots_labelled [Str ''yes'', Str ''no''])
   \<and> add_indicator_column_default_low_name = ''yes''
   \<and> add_indicator_column_default_high_name = ''no''
   \<and> (\<exists>c\<in>set [''cocoa'', ''oil_palm'']. exceeds exact percent_config plots c 1 (Fin 2))"
proof -
  let ?E = "\<exists>c\<in>set [''cocoa'', ''oil_palm'']. exceeds exact percent_config plots c 1 (Fin 2)"
  have w: "wf_table plots" by code_simp
  have r: "add_indicator_column_defaults exact percent_config plots [''cocoa'', ''oil_palm''] (Fin 2)
        ''Indicator_2_commodities'' = Inr (plots_labelled [Str ''yes'', Str ''no''])"
    by code_simp
  have i: "1 < nrows plots" by code_simp
  have c: "cell_at (plots_labelled [Str ''yes'', Str ''no'']) ''Indicator_2_commodities'' 1
      = Some (Str ''no'')"
    by code_simp
  note T = add_indicator_column_default_labels [OF w r i]
  have no: "\<And>P. Some (Str ''no'') = Some (Str (if P then ''no'' else ''yes'')) \<Longrightarrow> P"
    by (simp split: if_splits)
  have "Some (Str ''no'') = Some (Str (if ?E then ''no'' else ''yes''))"
    using T [THEN conjunct2, THEN conjunct2, THEN conjunct2] unfolding c .
  then have e: ?E by (rule no)
  from w r T [THEN conjunct1] T [THEN conjunct2, THEN conjunct1] e show ?thesis
    by (intro conjI)
qed

section \<open>The decision of the risk column\<close>

lemma risk_of_row_present:
  assumes "map_of (cols df) n1 = Some s1" and "map_of (cols df) n2 = Some s2"
    and "map_of (cols df) n3 = Some s3" and "map_of (cols df) n4 = Some s4"
  shows "risk_of_row df i n1 n2 n3 n4 = Inr (risk_rule (s1 ! i) (s2 ! i) (s3 ! i) (s4 ! i))"
  using assms by (simp add: risk_of_row_def row_get_def risk_rule_def)

lemma risk_loop_all_rows:
  assumes "\<And>j. j \<in> set js \<Longrightarrow> risk_of_row snap j n1 n2 n3 n4 = Inr (lab j)"
  shows "risk_loop snap n1 n2 n3 n4 js cur =
           Inr (foldl (\<lambda>d j. at_set d j ''EUDR_risk'' (Str (lab j))) cur js)"
  using assms by (induction js arbitrary: cur) simp_all

lemma map_of_at_set:
  "map_of (cols (at_set d j name v)) =
     (map_of (cols d))(name \<mapsto>
        (case map_of (cols d) name of
           Some s \<Rightarrow> s[j := v]
         | None \<Rightarrow> (replicate (nrows d) (Num NaN))[j := v]))"
  by (simp add: at_set_def update_conv')

lemma nrows_at_set: "nrows (at_set d j name v) = nrows d"
  by (simp add: at_set_def)

lemma at_set_same:
  assumes "\<And>s. map_of (cols d) name = Some s \<Longrightarrow> length s = nrows d" and "j < nrows d"
  shows "cell_at (at_set d j name v) name j = Some v"
  using assms by (auto simp: cell_at_def map_of_at_set split: option.splits)

lemma at_set_other:
  assumes "cell_at d name i = Some c" and "i \<noteq> j"
  shows "cell_at (at_set d j name v) name i = Some c"
  using assms by (auto simp: cell_at_def map_of_at_set split: option.splits if_splits)

lemma at_set_column_length:
  assumes "\<And>s. map_of (cols d) name = Some s \<Longrightarrow> length s = nrows d"
    and "map_of (cols (at_set d j name v)) name = Some s'"
  shows "length s' = nrows (at_set d j name v)"
  using assms by (auto simp: map_of_at_set nrows_at_set split: option.splits)

lemma foldl_at_set_invariant:
  assumes "\<And>s. map_of (cols cur) name = Some s \<Longrightarrow> length s = nrows cur"
  shows "nrows (foldl (\<lambda>d j. at_set d j name (Str (lab j))) cur js) = nrows cur
     \<and> (\<forall>s. map_of (cols (foldl (\<lambda>d j. at_set d j name (Str (lab j))) cur js)) name = Some s
            \<longrightarrow> length s = nrows cur)"
proof (induction js rule: rev_induct)
  case Nil
  then show ?case using assms by simp
next
  case (snoc j js)
  then show ?case
    by (auto simp: map_of_at_set nrows_at_set split: option.splits)
qed

lemma foldl_at_set_cell:
  assumes "\<And>s. map_of (cols cur) name = Some s \<Longrightarrow> length s = nrows cur"
    and "\<And>j. j \<in> set js \<Longrightarrow> j < nrows cur" and "i \<in> set js"
  shows "cell_at (foldl (\<lambda>d j. at_set d j name (Str (lab j))) cur js) name i = Some (Str (lab i))"
  using assms(2,3)
proof (induction js rule: rev_induct)
  case Nil
  then show ?case by simp
next
  case (snoc j js)
  let ?d = "foldl (\<lambda>d j. at_set d j name (Str (lab j))) cur js"
  note inv = foldl_at_set_invariant [OF assms(1), of name lab js]
  show ?case
  proof (cases "i = j")
    case True
    have "cell_at (at_set ?d j name (Str (lab j))) name j = Some (Str (lab j))"
    proof (rule at_set_same)
      show "\<And>s. map_of (cols ?d) name = Some s \<Longrightarrow> length s = nrows ?d"
        using inv by simp
      show "j < nrows ?d" using inv snoc.prems(1) by simp
    qed
    with True show ?thesis by simp
  next
    case False
    with snoc.prems have "i \<in> set js" by simp
    with snoc have "cell_at ?d name i = Some (Str (lab i))" by simp
    from at_set_other [OF this False] show ?thesis by simp
  qed
qed

lemma add_eudr_risk_col_rows:
  assumes "wf_table df"
    and "map_of (cols df) n1 = Some s1" and "map_of (cols df) n2 = Some s2"
    and "map_of (cols df) n3 = Some s3" and "map_of (cols df) n4 = Some s4"
    and "i < nrows df"
  shows "\<exists>df'. add_eudr_risk_col df n1 n2 n3 n4 = Inr df' \<and> nrows df' = nrows df
           \<and> cell_at df' ''EUDR_risk'' i
                = Some (Str (risk_rule (s1 ! i) (s2 ! i) (s3 ! i) (s4 ! i)))"
proof -
  let ?lab = "\<lambda>j. risk_rule (s1 ! j) (s2 ! j) (s3 ! j) (s4 ! j)"
  let ?df' = "foldl (\<lambda>d j. at_set d j ''EUDR_risk'' (Str (?lab j))) df [0..<nrows df]"
  have run: "add_eudr_risk_col df n1 n2 n3 n4 = Inr ?df'"
    unfolding add_eudr_risk_col_def
    by (rule risk_loop_all_rows) (rule risk_of_row_present [OF assms(2-5)])
  have len: "\<And>s. map_of (cols df) ''EUDR_risk'' = Some s \<Longrightarrow> length s = nrows df"
    using wf_table_lengths [OF assms(1)] by simp
  have "cell_at ?df' ''EUDR_risk'' i = Some (Str (?lab i))"
    by (rule foldl_at_set_cell [OF len]) (use assms(6) in auto)
  moreover have "nrows ?df' = nrows df"
    using foldl_at_set_invariant [OF len] by simp
  ultimately show ?thesis using run by simp
qed



text \<open>
  Claim C9 as stated speaks of every pair of labels other than (``no'', ``yes''). The pair
  (``yes'', ``no'') is another pair, and with it both branches are taken: the first row of
  the table below is labelled ``low'' and the second ``more\_info\_needed''.
\<close>

theorem add_eudr_risk_col_swapped_labels:
  "add_eudr_risk_col swapped_plots ''Indicator_1_treecover'' ''Indicator_2_commodities''
     ''Indicator_3_disturbance_before_2020'' ''Indicator_4_disturbance_after_2020''
   = Inr (swapped_plots\<lparr>cols := cols swapped_plots @
            [(''EUDR_risk'', [Str ''low'', Str ''more_info_needed''])]\<rparr>)"
  by code_simp

text \<open>
  Claim C9, amended. The decision compares the cells with the literal strings ``no'' and
  ``yes'', whatever labels the indicator columns were written with. When the four indicator
  columns hold two labels neither of which is ``no'' or ``yes'', no row takes one of the
  first two branches and every row is labelled ``high''.
\<close>

theorem add_eudr_risk_col_other_labels:
  assumes "wf_table df"
    and "get_col df ind_1_name = Inr s1" and "get_col df ind_2_name = Inr s2"
    and "get_col df ind_3_name = Inr s3" and "get_col df ind_4_name = Inr s4"
    and "set s1 \<union> set s2 \<union> set s3 \<union> set s4 \<subseteq> {Str low_name, Str high_name}"
    and "low_name \<notin> {''no'', ''yes''}" and "high_name \<notin> {''no'', ''yes''}"
    and "i < nrows df"
  shows "\<exists>df'. add_eudr_risk_col df ind_1_name ind_2_name ind_3_name ind_4_name = Inr df'
           \<and> cell_at df' ''EUDR_risk'' i = Some (Str ''high'')"
proof -
  from assms(2-5) have
    s: "map_of (cols df) ind_1_name = Some s1" "map_of (cols df) ind_2_name = Some s2"
       "map_of (cols df) ind_3_name = Some s3" "map_of (cols df) ind_4_name = Some s4"
    by (auto simp: get_col_def split: option.splits)
  have "i < length s1" "i < length s2" "i < length s3" "i < length s4"
    using wf_table_lengths [OF assms(1)] s assms(9) by auto
  then have "s1 ! i \<in> set s1" "s2 ! i \<in> set s2" "s3 ! i \<in> set s3" "s4 ! i \<in> set s4"
    by simp_all
  with assms(6) have "s1 ! i \<in> {Str low_name, Str high_name}"
    "s2 ! i \<in> {Str low_name, Str high_name}" "s3 ! i \<in> {Str low_name, Str high_name}"
    "s4 ! i \<in> {Str low_name, Str high_name}"
    by blast+
  with assms(7,8) have "risk_rule (s1 ! i) (s2 ! i) (s3 ! i) (s4 ! i) = ''high''"
    by (auto simp: risk_rule_def)
  with add_eudr_risk_col_rows [OF assms(1) s assms(9)] show ?thesis by auto
qed

text \<open>Indicator columns written with ``below'' and ``above''.\<close>

theorem add_eudr_risk_col_other_labels_witness:
  "\<exists>df'. add_eudr_risk_col renamed_plots ''Indicator_1_treecover'' ''Indicator_2_commodities''
            ''Indicator_3_disturbance_before_2020'' ''Indicator_4_disturbance_after_2020''
          = Inr df'
      \<and> cell_at df' ''EUDR_risk'' 0 = Some (Str ''high'')
      \<and> cell_at df' ''EUDR_risk'' 1 = Some (Str ''high'')"
proof -
  have w: "wf_table renamed_plots" by code_simp
  have g: "get_col renamed_plots ''Indicator_1_treecover'' = Inr [Str ''below'', Str ''above'']"
    "get_col renamed_plots ''Indicator_2_commodities'' = Inr [Str ''above'', Str ''below'']"
    "get_col renamed_plots ''Indicator_3_disturbance_before_2020''
       = Inr [Str ''below'', Str ''below'']"
    "get_col renamed_plots ''Indicator_4_disturbance_after_2020''
       = Inr [Str ''below'', Str ''above'']"
    by code_simp+
  have s: "set [Str ''below'', Str ''above''] \<union> set [Str ''above'', Str ''below'']
      \<union> set [Str ''below'', Str ''below''] \<union> set [Str ''below'', Str ''above'']
      \<subseteq> {Str ''below'', Str ''above''}"
    by auto
  have l: "''below'' \<notin> {''no'', ''yes''}" "''above'' \<notin> {''no'', ''yes''}" by simp_all
  have i: "0 < nrows renamed_plots" "1 < nrows renamed_plots" by code_simp+
  from add_eudr_risk_col_other_labels [OF w g s l i(1)]
    add_eudr_risk_col_other_labels [OF w g s l i(2)]
  show ?thesis by auto
qed

section \<open>The column order\<close>

lemma is_argsort_bounds:
  assumes "is_argsort keys p"
  shows "set p = {0..<length keys}"
proof -
  from assms have "mset p = mset [0..<length keys]" by (simp add: is_argsort_def)
  then have "set_mset (mset p) = set_mset (mset [0..<length keys])" by simp
  then show ?thesis by simp
qed

lemma sort_values_permutation:
  assumes "is_argsort (map dataset_order lk) (argsort (map dataset_order lk))"
  shows "mset (sort_values argsort lk) = mset lk"
proof -
  let ?p = "argsort (map dataset_order lk)"
  from assms have "mset ?p = mset [0..<length lk]" by (simp add: is_argsort_def)
  then have "image_mset ((!) lk) (mset ?p) = image_mset ((!) lk) (mset [0..<length lk])"
    by simp
  then have "mset (map ((!) lk) ?p) = mset (map ((!) lk) [0..<length lk])"
    by simp
  then show ?thesis by (simp add: sort_values_def map_nth)
qed

lemma sort_values_sorted:
  assumes "is_argsort (map dataset_order lk) (argsort (map dataset_order lk))"
  shows "sorted (map dataset_order (sort_values argsort lk))"
proof -
  let ?p = "argsort (map dataset_order lk)"
  from is_argsort_bounds [OF assms] have b: "\<And>i. i \<in> set ?p \<Longrightarrow> i < length lk" by auto
  then have eq: "map dataset_order (map ((!) lk) ?p) = map ((!) (map dataset_order lk)) ?p"
    by simp
  from assms have "sorted (map ((!) (map dataset_order lk)) ?p)"
    unfolding is_argsort_def by blast
  then have "sorted (map dataset_order (map ((!) lk) ?p))"
    unfolding eq .
  then show ?thesis
    unfolding sort_values_def .
qed

lemma map_of_reindex:
  "map_of (cols (reindex df labels)) c =
     (if c \<in> set labels
      then Some (case map_of (cols df) c of Some s \<Rightarrow> s
                 | None \<Rightarrow> replicate (nrows df) (Num NaN))
      else None)"
  by (simp add: reindex_def map_of_map_restrict restrict_map_def)

text \<open>
  Claim C6. Whatever sorting algorithm \<^verbatim>\<open>sort_values\<close> uses, the columns of the result of
  \<^verbatim>\<open>reorder_columns_by_lookup\<close> are exactly \<^verbatim>\<open>prefix_columns_list\<close> followed by the
  \<^verbatim>\<open>dataset_name\<close> of the rows of the lookup table in ascending \<^verbatim>\<open>dataset_order\<close>. A
  column of this list that the table has keeps its cells, one that the table does not have
  is all NaN, and a column of the table that is not in the list is not in the result.
\<close>

theorem reorder_columns_by_lookup_columns:
  assumes "is_argsort (map dataset_order lookup_gee_datasets_df)
             (argsort (map dataset_order lookup_gee_datasets_df))"
  shows "\<exists>rows. mset rows = mset lookup_gee_datasets_df
     \<and> sorted (map dataset_order rows)
     \<and> columns (reorder_columns_by_lookup argsort df lookup_gee_datasets_df
           dataset_order_column dataset_name_column prefix_columns_list)
         = prefix_columns_list @ map dataset_name rows
     \<and> (\<forall>c\<in>set (prefix_columns_list @ map dataset_name rows).
           get_col (reorder_columns_by_lookup argsort df lookup_gee_datasets_df
             dataset_order_column dataset_name_column prefix_columns_list) c
           = (if c \<in> set (columns df) then get_col df c
              else Inr (replicate (nrows df) (Num NaN))))
     \<and> (\<forall>c. c \<notin> set (prefix_columns_list @ map dataset_name rows) \<longrightarrow>
           get_col (reorder_columns_by_lookup argsort df lookup_gee_datasets_df
             dataset_order_column dataset_name_column prefix_columns_list) c
           = Inl KeyError)"
proof -
  let ?rows = "sort_values argsort lookup_gee_datasets_df"
  let ?res = "reorder_columns_by_lookup argsort df lookup_gee_datasets_df
           dataset_order_column dataset_name_column prefix_columns_list"
  have res: "?res = reindex df (prefix_columns_list @ map dataset_name ?rows)"
    by (simp add: reorder_columns_by_lookup_def create_column_list_from_lookup_def
        order_list_from_lookup_def)
  have "columns ?res = prefix_columns_list @ map dataset_name ?rows"
    unfolding res by (simp add: columns_def reindex_def comp_def)
  moreover have "get_col ?res c = (if c \<in> set (columns df) then get_col df c
              else Inr (replicate (nrows df) (Num NaN)))"
    if "c \<in> set (prefix_columns_list @ map dataset_name ?rows)" for c
  proof (cases "map_of (cols df) c")
    case None
    then have "c \<notin> set (columns df)"
      by (simp add: columns_def map_of_eq_None_iff)
    with None that show ?thesis
      unfolding res by (simp add: get_col_def map_of_reindex)
  next
    case (Some s)
    then have "c \<in> set (columns df)"
      by (auto simp: columns_def dest: map_of_SomeD intro: rev_image_eqI)
    with Some that show ?thesis
      unfolding res by (simp add: get_col_def map_of_reindex)
  qed
  moreover have "get_col ?res c = Inl KeyError"
    if "c \<notin> set (prefix_columns_list @ map dataset_name ?rows)" for c
    using that unfolding res by (simp add: get_col_def map_of_reindex)
  ultimately show ?thesis
    using sort_values_permutation [where argsort = argsort, OF assms]
      sort_values_sorted [where argsort = argsort, OF assms]
    by blast
qed

text \<open>
  The example table ordered by the example lookup table: tree cover and cocoa change
  places, soy is new and empty, the other columns are gone.
\<close>

theorem reorder_columns_by_lookup_columns_witness:
  "is_argsort (map dataset_order lookup_example)
     (insertion_argsort (map dataset_order lookup_example))
   \<and> reorder_columns_by_lookup insertion_argsort plots lookup_example
        ''dataset_order'' ''dataset_name'' [''Area'']
       = \<lparr>nrows = 2,
          cols = [(''Area'', [Num (Fin 10), Num (Fin 4)]),
                  (''cocoa'', [Num (Fin 0), Num (Fin 0)]),
                  (''treecover'', [Num (Fin 50), Num (Fin 1)]),
                  (''soy'', [Num NaN, Num NaN])]\<rparr>
   \<and> (\<exists>rows. mset rows = mset lookup_example
          \<and> sorted (map dataset_order rows)
          \<and> columns (reorder_columns_by_lookup insertion_argsort plots lookup_example
                ''dataset_order'' ''dataset_name'' [''Area''])
              = [''Area''] @ map dataset_name rows)"
proof -
  have a: "is_argsort (map dataset_order lookup_example)
     (insertion_argsort (map dataset_order lookup_example))"
    by code_simp
  have r: "reorder_columns_by_lookup insertion_argsort plots lookup_example
        ''dataset_order'' ''dataset_name'' [''Area'']
       = \<lparr>nrows = 2,
          cols = [(''Area'', [Num (Fin 10), Num (Fin 4)]),
                  (''cocoa'', [Num (Fin 0), Num (Fin 0)]),
                  (''treecover'', [Num (Fin 50), Num (Fin 1)]),
                  (''soy'', [Num NaN, Num NaN])]\<rparr>"
    by code_simp
  from reorder_columns_by_lookup_columns [where argsort = insertion_argsort, OF a,
      of plots "''dataset_order''" "''dataset_name''" "[''Area'']"]
  obtain rows where "mset rows = mset lookup_example" "sorted (map dataset_order rows)"
    "columns (reorder_columns_by_lookup insertion_argsort plots lookup_example
                ''dataset_order'' ''dataset_name'' [''Area''])
              = [''Area''] @ map dataset_name rows"
    by blast
  with a r show ?thesis by blast
qed

text \<open>
  Rows with the same \<^verbatim>\<open>dataset_order\<close>: \<^verbatim>\<open>sort_values\<close> is called without
  \<^verbatim>\<open>kind\<close>, and being a sort does not fix their order. Both sorts below are sorts of the
  two tied rows; one keeps them in the order of the lookup table and the other does not.
\<close>

lemma sorting_leaves_ties_open:
  "is_argsort (map dataset_order tied_lookup) (insertion_argsort (map dataset_order tied_lookup))
   \<and> is_argsort (map dataset_order tied_lookup)
        (backward_argsort (map dataset_order tied_lookup))
   \<and> order_list_from_lookup insertion_argsort tied_lookup = [''cocoa'', ''soy'']
   \<and> order_list_from_lookup backward_argsort tied_lookup = [''soy'', ''cocoa'']"
  by code_simp

section \<open>whisp\_risk as a whole\<close>

text \<open>
  \<^verbatim>\<open>add_indicator_column\<close> writes the column it is asked for and no other, and
  \<^verbatim>\<open>whisp_risk\<close> asks for three: a fourth indicator column is in the table that goes to
  \<^verbatim>\<open>add_eudr_risk_col\<close> only when the caller's table had it.
\<close>

lemma map_of_loc_set_other:
  "c \<noteq> name \<Longrightarrow> map_of (cols (loc_set df msk name v)) c = map_of (cols df) c"
  by (simp add: loc_set_def update_conv')

lemma column_loop_other_columns:
  assumes "column_loop ar cfg t new high cs cur = Inr df'" and "c \<noteq> new"
  shows "map_of (cols df') c = map_of (cols cur) c"
  using assms
proof (induction cs arbitrary: cur)
  case Nil
  then show ?case by simp
next
  case (Cons col rest)
  then show ?case
    by (auto simp: map_of_loc_set_other split: sum.splits)
qed

lemma add_indicator_column_other_columns:
  assumes "add_indicator_column ar cfg df cs t new low high False = Inr df'" and "c \<noteq> new"
  shows "map_of (cols df') c = map_of (cols df) c"
proof -
  from assms(1) have "column_loop ar cfg t new high cs (set_col df new (Str low)) = Inr df'"
    by (simp add: add_indicator_column_def)
  from column_loop_other_columns [OF this assms(2)] assms(2) show ?thesis
    by (simp add: map_of_set_col)
qed

lemma indicators_loop_other_columns:
  assumes "indicators_loop ar cfg low high zs df = Inr df'"
    and "c \<notin> set (map (\<lambda>z. snd (snd z)) zs)"
  shows "map_of (cols df') c = map_of (cols df) c"
  using assms
proof (induction zs arbitrary: df)
  case Nil
  then show ?case by simp
next
  case (Cons z zs)
  obtain ic t n where z: "z = (ic, t, n)" by (cases z) auto
  from Cons.prems(1) obtain d where
    d: "add_indicator_column ar cfg df ic t n low high False = Inr d"
    and rest: "indicators_loop ar cfg low high zs d = Inr df'"
    by (auto simp: z split: sum.splits)
  from Cons.prems(2) have "c \<noteq> n" "c \<notin> set (map (\<lambda>z. snd (snd z)) zs)"
    by (simp_all add: z)
  with Cons.IH [OF rest] add_indicator_column_other_columns [OF d] show ?case by simp
qed

lemma whisp_risk_adds_three_indicators:
  assumes "add_indicators ar cfg df [ic1, ic2, ic3, ic4] [t1, t2, t3, t4] [n1, n2, n3] low high
             = Inr df_w_indicators"
    and "n4 \<notin> {n1, n2, n3}"
  shows "get_col df_w_indicators n4 = get_col df n4"
proof -
  from assms(1) have "indicators_loop ar cfg low high [(ic1, t1, n1), (ic2, t2, n2), (ic3, t3, n3)] df
      = Inr df_w_indicators"
    by (simp add: add_indicators_def)
  from indicators_loop_other_columns [OF this, of n4] assms(2) show ?thesis
    by (simp add: get_col_def)
qed

lemma whisp_risk_ends_with_risk_col:
  assumes "check_ranges [t1, t2, t3, t4] = Inr ()"
    and "add_indicators ar cfg df [ic1, ic2, ic3, ic4] [t1, t2, t3, t4] [n1, n2, n3] low high
           = Inr df_w_indicators"
  shows "whisp_risk ar cfg df t1 t2 t3 t4 ic1 ic2 ic3 ic4 n1 n2 n3 n4 low high
           = add_eudr_risk_col df_w_indicators n1 n2 n3 n4"
  using assms by (simp add: whisp_risk_def)

text \<open>
  Claim C1. The claim is that \<^verbatim>\<open>whisp_risk\<close> adds four indicator columns, the fourth named
  by \<^verbatim>\<open>ind_4_name\<close>, before the risk column is computed. The list \<^verbatim>\<open>names\<close> of
  \<^verbatim>\<open>whisp_risk\<close> holds three names only, so \<^verbatim>\<open>add_indicators\<close> stops after three columns.
  On the example table with all thresholds 10, the first row has tree cover, no commodity
  and no disturbance before 2020: the decision reads the fourth indicator, which does not
  exist, and the call ends with KeyError, leaving three indicator columns and no risk
  column.
\<close>

theorem whisp_risk_fourth_indicator_missing:
  "whisp_risk exact percent_config plots (Fin 10) (Fin 10) (Fin 10) (Fin 10)
      [''treecover''] [''cocoa'', ''oil_palm''] [''loss_before''] [''loss_after'']
      ''Indicator_1_treecover'' ''Indicator_2_commodities''
      ''Indicator_3_disturbance_before_2020'' ''Indicator_4_disturbance_after_2020''
      ''no'' ''yes''
   = Inl (KeyError,
       \<lparr>nrows = 2,
        cols = [(''Area'', [Num (Fin 10), Num (Fin 4)]),
                (''treecover'', [Num (Fin 50), Num (Fin 1)]),
                (''cocoa'', [Num (Fin 0), Num (Fin 0)]),
                (''oil_palm'', [Num (Fin 0), Num (Fin 3)]),
                (''loss_before'', [Num (Fin 0), Num (Fin 0)]),
                (''loss_after'', [Num (Fin 20), Num (Fin 0)]),
                (''Indicator_1_treecover'', [Str ''yes'', Str ''no'']),
                (''Indicator_2_commodities'', [Str ''no'', Str ''no'']),
                (''Indicator_3_disturbance_before_2020'', [Str ''no'', Str ''no''])]\<rparr>)"
  by code_simp

end
